theory Spec2Isabelle
  imports Complex_Main "HOL-Library.Sublist" "HOL-Library.Multiset"
begin

section \<open>Python values used by the backend\<close>

text \<open>
  A Python \<open>str\<close> is modelled as a HOL \<open>string\<close>, one element per character, so
  \<open>length\<close> is Python's \<open>len\<close>.  Python's unbounded \<open>int\<close> is \<open>int\<close>.
\<close>

text \<open>
  Python's slice \<open>xs[i:j]\<close>: a negative bound counts from the end, and both bounds are
  clamped to \<open>0 .. len(xs)\<close>; an empty range yields the empty sequence.
\<close>

definition py_slice :: "'a list \<Rightarrow> int \<Rightarrow> int \<Rightarrow> 'a list" where
  "py_slice xs i j =
     (let n = int (length xs);
          lo = (if i < 0 then max (n + i) 0 else min i n);
          hi = (if j < 0 then max (n + j) 0 else min j n)
      in take (nat (hi - lo)) (drop (nat lo) xs))"

section \<open>pdf_utils.py: the chunker\<close>

text \<open>
  \<^verbatim>\<open>
  def chunk_text(text, chunk_size=500, overlap=50):
      chunks = []
      start = 0
      while start < len(text):
          end = start + chunk_size
          chunk = text[start:end]
          chunks.append(chunk)
          start = end - overlap
      return chunks
  \<close>
  The \<open>while\<close> loop is \<open>chunk_loop\<close>, with the loop variables \<open>start\<close> and \<open>chunks\<close>
  as arguments.  The loop need not terminate (the source checks nothing about
  \<open>chunk_size\<close> and \<open>overlap\<close>), so the result is an \<open>option\<close>: \<open>None\<close> is a
  loop that never returns.
\<close>

partial_function (option) chunk_loop ::
  "string \<Rightarrow> int \<Rightarrow> int \<Rightarrow> int \<Rightarrow> string list \<Rightarrow> string list option" where
  "chunk_loop text chunk_size overlap start chunks =
     (if start < int (length text) then
        (let end' = start + chunk_size;
             chunk = py_slice text start end'
         in chunk_loop text chunk_size overlap (end' - overlap) (chunks @ [chunk]))
      else Some chunks)"

declare chunk_loop.simps [code]

definition chunk_text :: "string \<Rightarrow> int \<Rightarrow> int \<Rightarrow> string list option" where
  "chunk_text text chunk_size overlap = chunk_loop text chunk_size overlap 0 []"


text \<open>
  The inverse the specification describes for the chunker: keep the first chunk whole,
  drop the leading \<open>overlap\<close> characters (\<open>chunk[overlap:]\<close>) of every later chunk,
  and concatenate.
\<close>

definition join_without_overlaps :: "string list \<Rightarrow> int \<Rightarrow> string" where
  "join_without_overlaps chunks overlap =
     (case chunks of [] \<Rightarrow> []
      | c # cs \<Rightarrow> c @ concat (map (\<lambda>c'. py_slice c' overlap (int (length c'))) cs))"

section \<open>Strings\<close>

text \<open>
  The string methods the backend calls, on the ASCII range: \<open>str.isspace\<close> holds of the
  characters 0x09 to 0x0D, 0x1C to 0x1F and the space; \<open>str.upper\<close> and \<open>str.lower\<close>
  change the 26 letters and nothing else.
\<close>

definition py_isspace :: "char \<Rightarrow> bool" where
  "py_isspace c =
     (c \<in> set [CHR 0x09, CHR 0x0A, CHR 0x0B, CHR 0x0C, CHR 0x0D,
                 CHR 0x1C, CHR 0x1D, CHR 0x1E, CHR 0x1F, CHR '' ''])"

definition py_strip :: "string \<Rightarrow> string" where
  "py_strip s = rev (dropWhile py_isspace (rev (dropWhile py_isspace s)))"

definition upper_char :: "char \<Rightarrow> char" where
  "upper_char c =
     (case map_of (zip ''abcdefghijklmnopqrstuvwxyz'' ''ABCDEFGHIJKLMNOPQRSTUVWXYZ'') c of
        Some u \<Rightarrow> u | None \<Rightarrow> c)"


definition py_upper :: "string \<Rightarrow> string" where
  "py_upper s = map upper_char s"


text \<open>\<open>sub in s\<close> on strings: \<open>sub\<close> occurs in \<open>s\<close> as a contiguous run.\<close>

fun py_in :: "string \<Rightarrow> string \<Rightarrow> bool" where
  "py_in sub [] = (sub = [])"
| "py_in sub (c # cs) = (prefix sub (c # cs) \<or> py_in sub cs)"



fun py_join :: "string \<Rightarrow> string list \<Rightarrow> string" where
  "py_join sep [] = []"
| "py_join sep [x] = x"
| "py_join sep (x # y # ys) = x @ sep @ py_join sep (y # ys)"

text \<open>
  \<open>s.index(c)\<close> and \<open>s.rindex(c)\<close> for one character: the first and the last position
  of \<open>c\<close>; \<open>None\<close> is the \<open>ValueError\<close> both raise when \<open>c\<close> does not occur.
\<close>

fun py_index :: "string \<Rightarrow> char \<Rightarrow> nat option" where
  "py_index [] c = None"
| "py_index (x # xs) c = (if x = c then Some 0 else map_option Suc (py_index xs c))"

definition py_rindex :: "string \<Rightarrow> char \<Rightarrow> nat option" where
  "py_rindex s c = map_option (\<lambda>i. length s - 1 - i) (py_index (rev s) c)"




section \<open>JSON values, errors and the outside world\<close>

text \<open>
  What \<open>json.loads\<close> returns: \<open>None\<close>, \<open>bool\<close>, \<open>int\<close>, \<open>float\<close>, \<open>str\<close>, \<open>list\<close> or
  \<open>dict\<close>.  A \<open>dict\<close> is an association list in insertion order, read with \<open>map_of\<close>.
  The same type stands for the Python values the handlers pass around (\<open>analysis\<close> is
  \<open>None\<close>, a \<open>dict\<close> or a \<open>str\<close>).
\<close>

datatype json =
    JNull
  | JBool bool
  | JInt int
  | JFloat real
  | JStr string
  | JArr "json list"
  | JObj "(string \<times> json) list"

text \<open>Python's truth value, as \<open>x or default\<close> tests it.\<close>

fun truthy :: "json \<Rightarrow> bool" where
  "truthy JNull = False"
| "truthy (JBool b) = b"
| "truthy (JInt n) = (n \<noteq> 0)"
| "truthy (JFloat r) = (r \<noteq> 0)"
| "truthy (JStr s) = (s \<noteq> [])"
| "truthy (JArr xs) = (xs \<noteq> [])"
| "truthy (JObj kvs) = (kvs \<noteq> [])"

definition py_or :: "json \<Rightarrow> json \<Rightarrow> json" where
  "py_or v d = (if truthy v then v else d)"

text \<open>
  The exceptions that can leave a function of the backend.  \<open>ServiceError\<close> is any
  exception raised inside a call to a hosted service (Gemini, Pinecone, PyMuPDF).
\<close>

datatype py_error =
    AttributeError
  | TypeError
  | JSONDecodeError
  | ValidationError
  | ServiceError

text \<open>
  The prompts are fixed templates around the interpolated values; a prompt is identified
  by its template and those values.
\<close>

datatype prompt =
    ClassifierPrompt string
  | AnalysisPrompt string
  | ReplyPrompt string string string string

type_synonym vector = "real list"

text \<open>A Pinecone metadata filter: a dict from metadata key to a condition.\<close>

datatype cond = Eq string | In "string list"

type_synonym pc_filter = "(string \<times> cond) list"

text \<open>
  A match of \<open>index.query\<close> and a vector given to \<open>index.upsert\<close>.  Every vector of this
  index is written with a metadata dict of strings (main.py, vector_store.py).
\<close>

record match =
  match_id :: string
  score :: real
  metadata :: "(string \<times> string) list"

record item =
  item_id :: string
  item_values :: vector
  item_metadata :: "(string \<times> string) list"

text \<open>
  The hosted services, as the answers they give during one request: the text of
  \<open>generate_content\<close> (\<open>None\<close> when the response has no text), the vectors of
  \<open>embed_content\<close>, the matches of \<open>index.query\<close>, the page texts PyMuPDF reads from
  the uploaded bytes, and the identifier \<open>uuid.uuid4()\<close> draws.  \<open>Inl\<close> is a raised
  exception.
\<close>

record services =
  generate_content :: "string \<Rightarrow> prompt \<Rightarrow> py_error + string option"
  embed_content :: "string \<Rightarrow> string list \<Rightarrow> py_error + vector list"
  index_query :: "vector \<Rightarrow> int \<Rightarrow> pc_filter option \<Rightarrow> py_error + match list"
  index_upsert :: "item list \<Rightarrow> py_error + unit"
  fitz_pages :: "string \<Rightarrow> py_error + string list"
  uuid4 :: string

text \<open>
  Library functions whose definition is not part of the repository:
  \<open>hashlib.sha256(s.encode("utf-8")).hexdigest()\<close>, \<open>json.loads\<close> (\<open>None\<close> when it
  raises), \<open>json.dumps\<close> and the builtin \<open>hash\<close>.
\<close>

record pylib =
  sha256_hexdigest :: "string \<Rightarrow> string"
  json_loads :: "string \<Rightarrow> json option"
  json_dumps :: "json \<Rightarrow> string"
  py_hash :: "string \<Rightarrow> int"

text \<open>The calls made to hosted services, in the order they are made.\<close>

datatype call =
    Generate string prompt
  | Embed string "string list"
  | Query vector int "pc_filter option"
  | Upsert "item list"

text \<open>
  The state that outlives a request: the log of service calls, the two Postgres tables
  (\<open>sessions\<close>: file_id to user_name; \<open>resumes\<close>: resume_hash to analysis_json and
  model_name) and the module-level dict \<open>_ANALYSIS_CACHE\<close> of coach_logic.py.
\<close>

record world =
  calls :: "call list"
  sessions :: "string \<rightharpoonup> string"
  resumes :: "string \<rightharpoonup> string \<times> string option"
  ANALYSIS_CACHE :: "int \<rightharpoonup> json"

definition log_call :: "call \<Rightarrow> world \<Rightarrow> world" where
  "log_call c w = w\<lparr>calls := calls w @ [c]\<rparr>"

definition GENERATION_MODEL :: string where
  "GENERATION_MODEL = ''gemini-2.5-flash''"

definition EMBEDDING_MODEL :: string where
  "EMBEDDING_MODEL = ''gemini-embedding-001''"

section \<open>pdf_utils.py: text extraction and the resume classifier\<close>


text \<open>Lines 50-56: texts above 12000 characters are cut to their head and tail.\<close>

definition text_for_llm :: "string \<Rightarrow> string" where
  "text_for_llm text =
     (let max_chars = 12000 in
      if length text > max_chars then
        (let head = py_slice text 0 8000;
             tail = py_slice text (- 4000) (int (length text))
         in head @ [CHR 0x0A, CHR 0x0A] @ ''... [TRUNCATED] ...'' @ [CHR 0x0A, CHR 0x0A] @ tail)
      else text)"

text \<open>
  \<open>is_probable_resume\<close> (lines 34-99).  \<open>response.text.strip()\<close> raises
  \<open>AttributeError\<close> when the response has no text.
\<close>

definition is_probable_resume ::
  "services \<Rightarrow> string \<Rightarrow> world \<Rightarrow> (py_error + bool) \<times> world" where
  "is_probable_resume sv text w =
     (if text = [] then (Inr False, w)
      else if length text < 300 then (Inr False, w)
      else if length text > 60000 then (Inr False, w)
      else
        (let prompt = ClassifierPrompt (text_for_llm text);
             w1 = log_call (Generate ''gemini-2.5-flash'' prompt) w
         in case generate_content sv ''gemini-2.5-flash'' prompt of
              Inl e \<Rightarrow> (Inl e, w1)
            | Inr None \<Rightarrow> (Inl AttributeError, w1)
            | Inr (Some response_text) \<Rightarrow>
                (let raw = py_upper (py_strip response_text) in
                 if py_in ''YES'' raw \<and> \<not> py_in ''NO'' raw then (Inr True, w1)
                 else if py_in ''NO'' raw \<and> \<not> py_in ''YES'' raw then (Inr False, w1)
                 else (Inr False, w1))))"

section \<open>vector_store.py\<close>

definition embed_texts ::
  "services \<Rightarrow> string list \<Rightarrow> world \<Rightarrow> (py_error + vector list) \<times> world" where
  "embed_texts sv texts w =
     (if texts = [] then (Inr [], w)
      else
        (let w1 = log_call (Embed EMBEDDING_MODEL texts) w
         in case embed_content sv EMBEDDING_MODEL texts of
              Inl e \<Rightarrow> (Inl e, w1)
            | Inr embeddings \<Rightarrow> (Inr embeddings, w1)))"


text \<open>Lines 54-65: the filter of the primary query.\<close>

definition build_filter :: "string list \<Rightarrow> string option \<Rightarrow> pc_filter option" where
  "build_filter doc_types file_id =
     (let filter_dict =
            (case doc_types of
               [] \<Rightarrow> []
             | [d] \<Rightarrow> [(''doc_type'', Eq d)]
             | _ \<Rightarrow> [(''doc_type'', In doc_types)])
            @ (case file_id of
                 None \<Rightarrow> []
               | Some f \<Rightarrow> if f = [] then [] else [(''file_id'', Eq f)])
      in if filter_dict = [] then None else Some filter_dict)"

text \<open>
  Lines 92-99: nothing for no match; otherwise the matches in descending order of score
  (\<open>sorted\<close> is stable, also with \<open>reverse=True\<close>) and \<open>metadata.get("text", "")\<close> of each.
\<close>

definition match_text :: "match \<Rightarrow> string" where
  "match_text m = (case map_of (metadata m) ''text'' of None \<Rightarrow> [] | Some t \<Rightarrow> t)"

definition texts_of_matches :: "match list \<Rightarrow> string list" where
  "texts_of_matches ms =
     (if ms = [] then []
      else (let matches = sort_key (\<lambda>m. - score m) ms in map match_text matches))"

definition retrieve_texts ::
  "services \<Rightarrow> string \<Rightarrow> int \<Rightarrow> string list \<Rightarrow> string option \<Rightarrow> bool \<Rightarrow> world
     \<Rightarrow> (py_error + string list) \<times> world" where
  "retrieve_texts sv query top_k doc_types file_id allow_fallback w =
     (case embed_texts sv [query] w of
        (Inl e, w1) \<Rightarrow> (Inl e, w1)
      | (Inr [], w1) \<Rightarrow> (Inr [], w1)
      | (Inr (vec # _), w1) \<Rightarrow>
          (let filter_arg = build_filter doc_types file_id;
               w2 = log_call (Query vec top_k filter_arg) w1
           in case index_query sv vec top_k filter_arg of
                Inl e \<Rightarrow> (Inl e, w2)
              | Inr res_matches \<Rightarrow>
                  if allow_fallback \<and> res_matches = []
                     \<and> file_id \<noteq> None \<and> file_id \<noteq> Some [] \<and> doc_types \<noteq> []
                  then
                    (let fallback_filter = [(''doc_type'', Eq (hd doc_types))];
                         w3 = log_call (Query vec top_k (Some fallback_filter)) w2
                     in case index_query sv vec top_k (Some fallback_filter) of
                          Inl e \<Rightarrow> (Inl e, w3)
                        | Inr res_matches' \<Rightarrow> (Inr (texts_of_matches res_matches'), w3))
                  else (Inr (texts_of_matches res_matches), w2)))"

text \<open>
  What it means for a match to satisfy a filter, as Pinecone documents it: every
  condition of the filter holds of the match's metadata.
\<close>

fun holds_cond :: "cond \<Rightarrow> string option \<Rightarrow> bool" where
  "holds_cond c None = False"
| "holds_cond (Eq v) (Some x) = (x = v)"
| "holds_cond (In vs) (Some x) = (x \<in> set vs)"

definition satisfies :: "pc_filter \<Rightarrow> match \<Rightarrow> bool" where
  "satisfies f m = list_all (\<lambda>(k, c). holds_cond c (map_of (metadata m) k)) f"

section \<open>coach_logic.py\<close>



text \<open>
  The helper \<open>get2\<close> of \<open>analyze_resume\<close>:
  \<^verbatim>\<open>obj.get(snake) if snake in obj else obj.get(camel, default)\<close>.
  On a list or a string \<open>snake in obj\<close> is evaluated and \<open>obj.get\<close> raises
  \<open>AttributeError\<close>; on \<open>None\<close>, a number or a boolean \<open>snake in obj\<close> raises
  \<open>TypeError\<close>.
\<close>

fun get2 :: "json \<Rightarrow> string \<Rightarrow> string \<Rightarrow> json \<Rightarrow> py_error + json" where
  "get2 (JObj kvs) snake camel dflt =
     Inr (case map_of kvs snake of
            Some v \<Rightarrow> v
          | None \<Rightarrow> (case map_of kvs camel of Some v \<Rightarrow> v | None \<Rightarrow> dflt))"
| "get2 (JArr xs) snake camel dflt = Inl AttributeError"
| "get2 (JStr s) snake camel dflt = Inl AttributeError"
| "get2 JNull snake camel dflt = Inl TypeError"
| "get2 (JBool b) snake camel dflt = Inl TypeError"
| "get2 (JInt n) snake camel dflt = Inl TypeError"
| "get2 (JFloat r) snake camel dflt = Inl TypeError"

definition bind_err :: "py_error + 'a \<Rightarrow> ('a \<Rightarrow> py_error + 'b) \<Rightarrow> py_error + 'b" where
  "bind_err m f = (case m of Inl e \<Rightarrow> Inl e | Inr x \<Rightarrow> f x)"

text \<open>Lines 88-99: the structure returned when the model returns nothing.\<close>

definition empty_analysis :: json where
  "empty_analysis =
     JObj [(''overall_score'', JNull),
           (''score_label'', JStr []),
           (''top_skills'', JArr []),
           (''role_fit'', JArr []),
           (''experience_level'', JStr []),
           (''years_experience'', JNull),
           (''project_count'', JNull),
           (''companies_count'', JNull),
           (''gaps'', JArr []),
           (''quick_wins'', JArr [])]"

text \<open>The ten keys of an analysis, in the order of the dict literal.\<close>

definition ten_fields :: "string list" where
  "ten_fields = [''overall_score'', ''score_label'', ''top_skills'', ''role_fit'',
                 ''experience_level'', ''years_experience'', ''project_count'',
                 ''companies_count'', ''gaps'', ''quick_wins'']"

text \<open>Lines 104-109: cut the text from the first \<open>{\<close> to the last \<open>}\<close>, if both occur.\<close>

definition isolate_json :: "string \<Rightarrow> string" where
  "isolate_json raw =
     (case py_index raw (CHR ''{'') of
        None \<Rightarrow> raw
      | Some start \<Rightarrow>
          (case py_rindex raw (CHR ''}'') of
             None \<Rightarrow> raw
           | Some end' \<Rightarrow> py_slice raw (int start) (int end' + 1)))"

text \<open>Lines 121-132: the dict literal, its ten values evaluated in order.\<close>

definition build_result :: "json \<Rightarrow> py_error + json" where
  "build_result data =
     bind_err (get2 data ''overall_score'' ''overallScore'' JNull) (\<lambda>overall_score.
     bind_err (get2 data ''score_label'' ''scoreLabel'' (JStr [])) (\<lambda>score_label.
     bind_err (get2 data ''top_skills'' ''topSkills'' (JArr [])) (\<lambda>top_skills.
     bind_err (get2 data ''role_fit'' ''roleFit'' (JArr [])) (\<lambda>role_fit.
     bind_err (get2 data ''experience_level'' ''experienceLevel'' (JStr [])) (\<lambda>experience_level.
     bind_err (get2 data ''years_experience'' ''yearsExperience'' JNull) (\<lambda>years_experience.
     bind_err (get2 data ''project_count'' ''projectCount'' JNull) (\<lambda>project_count.
     bind_err (get2 data ''companies_count'' ''companiesCount'' JNull) (\<lambda>companies_count.
     bind_err (get2 data ''gaps'' ''gaps'' (JArr [])) (\<lambda>gaps.
     bind_err (get2 data ''quick_wins'' ''quickWins'' (JArr [])) (\<lambda>quick_wins.
       Inr (JObj [(''overall_score'', overall_score),
                  (''score_label'', score_label),
                  (''top_skills'', py_or top_skills (JArr [])),
                  (''role_fit'', py_or role_fit (JArr [])),
                  (''experience_level'', experience_level),
                  (''years_experience'', years_experience),
                  (''project_count'', project_count),
                  (''companies_count'', companies_count),
                  (''gaps'', py_or gaps (JArr [])),
                  (''quick_wins'', py_or quick_wins (JArr []))])))))))))))"

text \<open>
  \<open>analyze_resume\<close> (lines 23-135).  An exception of \<open>json.loads\<close> is caught and gives
  \<open>data = {}\<close>; nothing else is caught.
\<close>

definition analyze_resume ::
  "pylib \<Rightarrow> services \<Rightarrow> string \<Rightarrow> world \<Rightarrow> (py_error + json) \<times> world" where
  "analyze_resume lib sv text w =
     (let cache_key = py_hash lib text in
      case ANALYSIS_CACHE w cache_key of
        Some cached \<Rightarrow> (Inr cached, w)
      | None \<Rightarrow>
          (let prompt = AnalysisPrompt text;
               w1 = log_call (Generate GENERATION_MODEL prompt) w
           in case generate_content sv GENERATION_MODEL prompt of
                Inl e \<Rightarrow> (Inl e, w1)
              | Inr resp_text \<Rightarrow>
                  (let raw = py_strip (case resp_text of None \<Rightarrow> [] | Some t \<Rightarrow> t) in
                   if raw = [] then
                     (Inr empty_analysis,
                      w1\<lparr>ANALYSIS_CACHE := (ANALYSIS_CACHE w1)(cache_key \<mapsto> empty_analysis)\<rparr>)
                   else
                     (let raw_json = isolate_json raw;
                          data = (case json_loads lib raw_json of
                                    None \<Rightarrow> JObj []
                                  | Some d \<Rightarrow> d)
                      in case build_result data of
                           Inl e \<Rightarrow> (Inl e, w1)
                         | Inr result \<Rightarrow>
                             (Inr result,
                              w1\<lparr>ANALYSIS_CACHE := (ANALYSIS_CACHE w1)(cache_key \<mapsto> result)\<rparr>)))))"

text \<open>\<open>generate_reply\<close> (lines 159-252) returns \<open>resp.text\<close>, which may be \<open>None\<close>.\<close>

definition generate_reply ::
  "services \<Rightarrow> string \<Rightarrow> string list \<Rightarrow> string list \<Rightarrow> string \<Rightarrow> world
     \<Rightarrow> (py_error + string option) \<times> world" where
  "generate_reply sv user_message resume_chunks coach_chunks user_name w =
     (let resume_context =
            (if resume_chunks \<noteq> [] then py_join [CHR 0x0A, CHR 0x0A] resume_chunks
             else ''No resume context found.'');
          coach_context =
            (if coach_chunks \<noteq> [] then py_join [CHR 0x0A, CHR 0x0A] coach_chunks
             else ''No coach Q&A context found.'');
          prompt = ReplyPrompt user_name resume_context coach_context user_message;
          w1 = log_call (Generate GENERATION_MODEL prompt) w
      in case generate_content sv GENERATION_MODEL prompt of
           Inl e \<Rightarrow> (Inl e, w1)
         | Inr resp_text \<Rightarrow> (Inr resp_text, w1))"

section \<open>db.py\<close>


definition get_user_name :: "world \<Rightarrow> string \<Rightarrow> string option" where
  "get_user_name w file_id = sessions w file_id"



section \<open>main.py: the two endpoints\<close>

text \<open>
  The fixed messages.  The source's typographic apostrophes, dashes and emoji are
  written in ASCII or left out.
\<close>

definition NO_FILE_MESSAGE :: string where
  "NO_FILE_MESSAGE = ''Please upload a valid resume in PDF format before we start chatting.''"

definition NO_RESUME_MESSAGE :: string where
  "NO_RESUME_MESSAGE =
     ''I could not find any valid resume content linked to this chat.'' @ [CHR 0x0A, CHR 0x0A]
     @ ''Please upload your actual resume in **PDF format** and then try asking your question again.''
     @ [CHR 0x0A]
     @ ''Right now it looks like you might have uploaded a random or non-resume PDF.''"




record ChatRequest =
  req_user_message :: string
  req_file_id :: string

text \<open>
  \<open>chat\<close> (lines 171-222).  \<open>ChatResponse(response=None)\<close> fails validation, since the
  field is a \<open>str\<close>.
\<close>

definition chat :: "services \<Rightarrow> ChatRequest \<Rightarrow> world \<Rightarrow> (py_error + string) \<times> world" where
  "chat sv payload w =
     (if req_file_id payload = [] then (Inr NO_FILE_MESSAGE, w)
      else
        (case retrieve_texts sv (req_user_message payload) 5 [''resume_chunk'']
                (Some (req_file_id payload)) False w of
           (Inl e, w1) \<Rightarrow> (Inl e, w1)
         | (Inr resume_chunks, w1) \<Rightarrow>
             if resume_chunks = [] then (Inr NO_RESUME_MESSAGE, w1)
             else
               (case retrieve_texts sv (req_user_message payload) 3 [''coach_qa''] None False w1 of
                  (Inl e, w2) \<Rightarrow> (Inl e, w2)
                | (Inr coach_chunks, w2) \<Rightarrow>
                    (let user_name1 =
                           (case get_user_name w2 (req_file_id payload) of
                              None \<Rightarrow> ''friend''
                            | Some n \<Rightarrow> if n = [] then ''friend'' else n)
                     in case generate_reply sv (req_user_message payload) resume_chunks
                               coach_chunks user_name1 w2 of
                          (Inl e, w3) \<Rightarrow> (Inl e, w3)
                        | (Inr None, w3) \<Rightarrow> (Inl ValidationError, w3)
                        | (Inr (Some response), w3) \<Rightarrow> (Inr response, w3)))))"










section \<open>Services and library functions for running the model\<close>

text \<open>
  An index that holds the given matches and answers a query with those that satisfy
  the filter, at most \<open>top_k\<close> of them.
\<close>

definition filtering_index ::
  "match list \<Rightarrow> vector \<Rightarrow> int \<Rightarrow> pc_filter option \<Rightarrow> py_error + match list" where
  "filtering_index stored vec top_k f =
     Inr (take (nat top_k)
            (filter (\<lambda>m. case f of None \<Rightarrow> True | Some fd \<Rightarrow> satisfies fd m) stored))"

text \<open>
  Services that answer every generation with the given text, embed every text as a
  one-dimensional vector, and query the given index.
\<close>

definition services_with :: "string option \<Rightarrow> match list \<Rightarrow> services" where
  "services_with answer stored =
     \<lparr>generate_content = (\<lambda>model p. Inr answer),
      embed_content = (\<lambda>model texts. Inr (map (\<lambda>t. [0]) texts)),
      index_query = filtering_index stored,
      index_upsert = (\<lambda>items. Inr ()),
      fitz_pages = (\<lambda>bytes. Inr [bytes]),
      uuid4 = ''f1''\<rparr>"

text \<open>
  Library functions for three JSON texts: \<open>json.loads\<close> reads \<open>[]\<close> as the empty list and
  \<open>{}\<close> as the empty dict, and the text written \<open>{defaults}\<close> here stands for the
  serialisation of the analysis that holds only defaults.
\<close>

definition small_lib :: pylib where
  "small_lib =
     \<lparr>sha256_hexdigest = (\<lambda>s. ''h'' @ s),
      json_loads = (\<lambda>s. if s = ''[]'' then Some (JArr [])
                         else if s = ''{}'' then Some (JObj [])
                         else if s = ''{defaults}'' then Some empty_analysis
                         else None),
      json_dumps = (\<lambda>j. if j = JArr [] then ''[]''
                         else if j = JObj [] then ''{}''
                         else ''{defaults}''),
      py_hash = (\<lambda>s. int (length s))\<rparr>"

definition empty_world :: world where
  "empty_world =
     \<lparr>calls = [], sessions = Map.empty, resumes = Map.empty, ANALYSIS_CACHE = Map.empty\<rparr>"

text \<open>Which calls go to a model of Gemini, and which to the generative model.\<close>

fun is_model_call :: "call \<Rightarrow> bool" where
  "is_model_call (Generate model p) = True"
| "is_model_call (Embed model texts) = True"
| "is_model_call (Query vec top_k f) = False"
| "is_model_call (Upsert items) = False"

fun is_generate_call :: "call \<Rightarrow> bool" where
  "is_generate_call (Generate model p) = True"
| "is_generate_call (Embed model texts) = False"
| "is_generate_call (Query vec top_k f) = False"
| "is_generate_call (Upsert items) = False"


fun is_query_call :: "call \<Rightarrow> bool" where
  "is_query_call (Query vec top_k f) = True"
| "is_query_call c = False"


section \<open>Slices\<close>

lemma py_slice_nonneg:
  assumes "0 \<le> i" "i \<le> j"
  shows "py_slice xs i j = take (nat (j - i)) (drop (nat i) xs)"
proof (cases "i \<le> int (length xs)")
  case True
  have "take (nat (min j (int (length xs)) - i)) (drop (nat i) xs) = take (nat (j - i)) (drop (nat i) xs)"
  proof (cases "j \<le> int (length xs)")
    case True then show ?thesis by (simp add: min_def)
  next
    case False
    with \<open>i \<le> int (length xs)\<close> assms show ?thesis by (simp add: min_def)
  qed
  with True assms show ?thesis by (simp add: py_slice_def Let_def min_def)
next
  case False
  with assms show ?thesis by (simp add: py_slice_def Let_def min_def)
qed

lemma py_slice_to_end:
  assumes "0 \<le> i"
  shows "py_slice xs i (int (length xs)) = drop (nat i) xs"
  using assms by (simp add: py_slice_def Let_def min_def)

section \<open>The chunker\<close>

lemma chunk_loop_terminates:
  assumes "overlap < chunk_size"
  shows "\<exists>cs. chunk_loop text chunk_size overlap start chunks = Some cs"
proof (induction "nat (int (length text) - start)" arbitrary: start chunks rule: less_induct)
  case less
  show ?case
  proof (cases "start < int (length text)")
    case False
    then show ?thesis by (simp add: chunk_loop.simps)
  next
    case True
    let ?s = "start + chunk_size - overlap"
    have "nat (int (length text) - ?s) < nat (int (length text) - start)"
      using True assms by linarith
    from less[OF this]
    obtain cs where "chunk_loop text chunk_size overlap ?s
        (chunks @ [py_slice text start (start + chunk_size)]) = Some cs" by blast
    with True show ?thesis
      by (subst chunk_loop.simps) (simp add: Let_def)
  qed
qed

lemma chunk_loop_rejoin:
  assumes "0 \<le> overlap" "overlap < chunk_size"
  shows "0 \<le> start \<Longrightarrow> \<exists>rest. chunk_loop text chunk_size overlap start chunks = Some (chunks @ rest)
           \<and> concat (map (\<lambda>c'. py_slice c' overlap (int (length c'))) rest) = drop (nat (start + overlap)) text"
proof (induction "nat (int (length text) - start)" arbitrary: start chunks rule: less_induct)
  case less
  show ?case
  proof (cases "start < int (length text)")
    case False
    with less.prems assms show ?thesis by (simp add: chunk_loop.simps)
  next
    case True
    let ?s = "start + chunk_size - overlap"
    let ?c = "py_slice text start (start + chunk_size)"
    have dec: "nat (int (length text) - ?s) < nat (int (length text) - start)"
      using True assms by linarith
    have nn: "0 \<le> ?s" using less.prems assms by linarith
    from less.hyps[OF dec nn, of "chunks @ [?c]"]
    obtain rest where r: "chunk_loop text chunk_size overlap ?s (chunks @ [?c]) = Some ((chunks @ [?c]) @ rest)"
      and j: "concat (map (\<lambda>c'. py_slice c' overlap (int (length c'))) rest) = drop (nat (?s + overlap)) text"
      by blast
    have c: "?c = take (nat chunk_size) (drop (nat start) text)"
      using less.prems assms by (simp add: py_slice_nonneg)
    have "py_slice ?c overlap (int (length ?c)) = drop (nat overlap) ?c"
      using assms by (rule_tac py_slice_to_end) simp
    also have "\<dots> = drop (nat overlap) (take (nat chunk_size) (drop (nat start) text))"
      by (simp only: c)
    also have "\<dots> = take (nat chunk_size - nat overlap) (drop (nat overlap + nat start) text)"
      by (simp only: drop_take drop_drop)
    also have "\<dots> = take (nat (chunk_size - overlap)) (drop (nat (start + overlap)) text)"
      using less.prems assms by (simp add: nat_diff_distrib nat_add_distrib add.commute)
    finally have d: "py_slice ?c overlap (int (length ?c))
        = take (nat (chunk_size - overlap)) (drop (nat (start + overlap)) text)" .
    have "nat (?s + overlap) = nat (chunk_size - overlap) + nat (start + overlap)"
      using less.prems assms by linarith
    then have e: "concat (map (\<lambda>c'. py_slice c' overlap (int (length c'))) rest)
        = drop (nat (chunk_size - overlap)) (drop (nat (start + overlap)) text)"
      by (simp only: j drop_drop)
    have "chunk_loop text chunk_size overlap start chunks = Some (chunks @ (?c # rest))"
      using True r by (subst chunk_loop.simps) (simp add: Let_def)
    moreover have "concat (map (\<lambda>c'. py_slice c' overlap (int (length c'))) (?c # rest))
        = drop (nat (start + overlap)) text"
      by (simp only: list.map concat.simps d e append_take_drop_id)
    ultimately show ?thesis by blast
  qed
qed


lemma chunk_loop_returns_only_past_end:
  assumes "chunk_loop txt chunk_size overlap start chunks = Some y"
  shows "chunk_size \<le> overlap \<longrightarrow> int (length txt) \<le> start"
proof (rule chunk_loop.raw_induct
    [where P = "\<lambda>t cs ov st acc y. cs \<le> ov \<longrightarrow> int (length t) \<le> st", OF _ assms])
  fix f t cs ov st acc r
  assume IH: "\<And>t cs ov st acc r. f t cs ov st acc = Some r \<Longrightarrow> cs \<le> ov \<longrightarrow> int (length t) \<le> st"
    and step: "(if st < int (length t)
                then let end' = st + cs; chunk = py_slice t st end'
                     in f t cs ov (end' - ov) (acc @ [chunk])
                else Some acc) = Some r"
  show "cs \<le> ov \<longrightarrow> int (length t) \<le> st"
  proof (cases "st < int (length t)")
    case True
    with step have "f t cs ov (st + cs - ov) (acc @ [py_slice t st (st + cs)]) = Some r"
      by (simp add: Let_def)
    from IH[OF this] show ?thesis by auto
  next
    case False
    then show ?thesis by simp
  qed
qed

lemma chunk_loop_diverges:
  assumes "chunk_size \<le> overlap" and "start < int (length txt)"
  shows "chunk_loop txt chunk_size overlap start chunks = None"
proof (cases "chunk_loop txt chunk_size overlap start chunks")
  case None
  then show ?thesis .
next
  case (Some y)
  from chunk_loop_returns_only_past_end[OF this] assms show ?thesis by simp
qed

text \<open>
  Claim C8.  Whenever \<open>overlap < chunk_size\<close>, \<open>chunk_text\<close> returns for every text:
  the window start advances by \<open>chunk_size - overlap > 0\<close> in each iteration, so the
  distance to the end of the text decreases.
\<close>

theorem chunk_text_terminates:
  assumes "overlap < chunk_size"
  shows "\<exists>chunks. chunk_text text chunk_size overlap = Some chunks"
  unfolding chunk_text_def using assms by (rule chunk_loop_terminates)

theorem chunk_text_terminates_witness:
  "(1::int) < 4 \<and> (\<exists>chunks. chunk_text ''abcdefghij'' 4 1 = Some chunks)"
  using chunk_text_terminates [of 1 4 "''abcdefghij''"] by simp

text \<open>
  Claim C9.  For every text and every overlap with \<open>0 \<le> overlap < chunk_size\<close>, the
  chunks of \<open>chunk_text\<close>, joined after removing the leading \<open>overlap\<close> characters of
  every chunk but the first, are the original text.
\<close>

theorem chunk_text_round_trip:
  assumes "0 \<le> overlap" and "overlap < chunk_size"
  shows "\<exists>chunks. chunk_text text chunk_size overlap = Some chunks
           \<and> join_without_overlaps chunks overlap = text"
proof (cases "text = []")
  case True
  then show ?thesis
    by (simp add: chunk_text_def chunk_loop.simps join_without_overlaps_def)
next
  case False
  let ?c = "py_slice text 0 chunk_size"
  have nn: "0 \<le> chunk_size - overlap" using assms by simp
  from chunk_loop_rejoin[OF assms nn, of "text" "[?c]"]
  obtain rest where r: "chunk_loop text chunk_size overlap (chunk_size - overlap) [?c] = Some ([?c] @ rest)"
    and j: "concat (map (\<lambda>c'. py_slice c' overlap (int (length c'))) rest)
             = drop (nat (chunk_size - overlap + overlap)) text"
    by blast
  have c: "?c = take (nat chunk_size) text"
    using assms by (simp add: py_slice_nonneg)
  have "chunk_text text chunk_size overlap = Some (?c # rest)"
    unfolding chunk_text_def using False r
    by (subst chunk_loop.simps) (simp add: Let_def)
  moreover have "join_without_overlaps (?c # rest) overlap = text"
    using j by (simp add: join_without_overlaps_def c)
  ultimately show ?thesis by blast
qed

theorem chunk_text_round_trip_witness:
  "(0::int) \<le> 1 \<and> (1::int) < 4 \<and> (\<exists>chunks. chunk_text ''abcdefghij'' 4 1 = Some chunks
      \<and> join_without_overlaps chunks 1 = ''abcdefghij'')"
  using chunk_text_round_trip [of 1 4 "''abcdefghij''"] by simp

text \<open>
  Claim C2, as stated, fails: a text of 451 characters is no longer than the default
  \<open>chunk_size = 500\<close>, yet the loop runs a second time from \<open>start = 450\<close> and returns
  two chunks; the empty text yields no chunk at all.
\<close>

theorem chunk_text_degenerate_counterexample:
  "length (replicate 451 (CHR ''a'')) \<le> 500
   \<and> chunk_text (replicate 451 (CHR ''a'')) 500 50 = Some [replicate 451 (CHR ''a''), ''a'']
   \<and> chunk_text [] 500 50 = Some []"
  by (simp add: chunk_text_def chunk_loop.simps py_slice_def)

lemma chunk_text_up_to_500:
  assumes "length text \<le> 500"
  shows "chunk_text text 500 50 =
           Some (if text = [] then []
                 else if length text \<le> 450 then [text]
                 else [text, drop 450 text])"
proof -
  have first: "py_slice text 0 500 = text"
    using assms by (simp add: py_slice_def)
  show ?thesis
  proof (cases "text = []")
    case True
    then show ?thesis by (simp add: chunk_text_def chunk_loop.simps)
  next
    case False
    then have one: "chunk_text text 500 50 = chunk_loop text 500 50 450 [text]"
      unfolding chunk_text_def by (subst chunk_loop.simps) (simp add: first)
    show ?thesis
    proof (cases "length text \<le> 450")
      case True
      with False one show ?thesis by (subst (asm) chunk_loop.simps) simp
    next
      case long: False
      have second: "py_slice text 450 950 = drop 450 text"
        using assms long by (simp add: py_slice_def)
      have "chunk_loop text 500 50 450 [text] = chunk_loop text 500 50 900 [text, drop 450 text]"
        using long by (subst chunk_loop.simps) (simp add: second)
      also have "\<dots> = Some [text, drop 450 text]"
        using assms by (subst chunk_loop.simps) simp
      finally show ?thesis using False long one by simp
    qed
  qed
qed

text \<open>
  Claim C2, amended.  With the defaults \<open>chunk_size = 500\<close> and \<open>overlap = 50\<close>, a text
  of at most 500 characters yields: no chunk when it is empty; exactly one chunk, the whole
  text, when it has at most \<open>450 = chunk_size - overlap\<close> characters; otherwise the whole
  text followed by its tail from offset 450.
\<close>

theorem chunk_text_degenerate:
  assumes "length text \<le> 500"
  shows "chunk_text text 500 50 =
           Some (if text = [] then []
                 else if length text \<le> 450 then [text]
                 else [text, drop 450 text])"
  using assms by (rule chunk_text_up_to_500)

theorem chunk_text_degenerate_witness:
  "length ''resume'' \<le> 500 \<and> chunk_text ''resume'' 500 50 = Some [''resume'']"
  using chunk_text_degenerate [of "''resume''"] by simp

section \<open>The resume classifier\<close>

lemma py_in_iff_sublist: "py_in sub s \<longleftrightarrow> sublist sub s"
  by (induction s) (simp_all add: sublist_Cons_right)

lemma py_in_iff: "py_in sub s \<longleftrightarrow> (\<exists>pre suf. s = pre @ sub @ suf)"
  by (simp add: py_in_iff_sublist sublist_def)

text \<open>
  Claim C6.  Let \<open>raw\<close> be the model's response text, stripped and uppercased.
  \<open>is_probable_resume\<close> returns \<open>True\<close> only if \<open>raw\<close> contains \<open>YES\<close> and not \<open>NO\<close>; it
  returns \<open>False\<close> if \<open>raw\<close> contains \<open>NO\<close> and not \<open>YES\<close>, and also if \<open>raw\<close> contains
  both or neither.  For a text that passes the length filters the result is exactly
  "\<open>YES\<close> occurs and \<open>NO\<close> does not".
\<close>

theorem is_probable_resume_verdict:
  assumes "generate_content sv ''gemini-2.5-flash'' (ClassifierPrompt (text_for_llm text))
             = Inr (Some response_text)"
  shows "(fst (is_probable_resume sv text w) = Inr True
            \<longrightarrow> py_in ''YES'' (py_upper (py_strip response_text))
                \<and> \<not> py_in ''NO'' (py_upper (py_strip response_text)))
       \<and> (py_in ''NO'' (py_upper (py_strip response_text))
            \<and> \<not> py_in ''YES'' (py_upper (py_strip response_text))
            \<longrightarrow> fst (is_probable_resume sv text w) = Inr False)
       \<and> (py_in ''YES'' (py_upper (py_strip response_text))
            = py_in ''NO'' (py_upper (py_strip response_text))
            \<longrightarrow> fst (is_probable_resume sv text w) = Inr False)
       \<and> (300 \<le> length text \<and> length text \<le> 60000
            \<longrightarrow> fst (is_probable_resume sv text w)
                  = Inr (py_in ''YES'' (py_upper (py_strip response_text))
                         \<and> \<not> py_in ''NO'' (py_upper (py_strip response_text))))"
  using assms by (auto simp: is_probable_resume_def Let_def)

theorem is_probable_resume_verdict_witness:
  "generate_content (services_with (Some ''Yes.'') []) ''gemini-2.5-flash''
       (ClassifierPrompt (text_for_llm (replicate 300 (CHR ''a'')))) = Inr (Some ''Yes.'')
   \<and> fst (is_probable_resume (services_with (Some ''Yes.'') []) (replicate 300 (CHR ''a'')) empty_world)
       = Inr True"
proof -
  have h: "generate_content (services_with (Some ''Yes.'') []) ''gemini-2.5-flash''
       (ClassifierPrompt (text_for_llm (replicate 300 (CHR ''a'')))) = Inr (Some ''Yes.'')"
    by (simp add: services_with_def)
  have y: "py_in ''YES'' (py_upper (py_strip ''Yes.''))"
    by (simp add: py_upper_def py_strip_def py_isspace_def upper_char_def)
  have n: "\<not> py_in ''NO'' (py_upper (py_strip ''Yes.''))"
    by (simp add: py_upper_def py_strip_def py_isspace_def upper_char_def)
  from is_probable_resume_verdict [OF h, of empty_world] y n h show ?thesis
    by simp
qed

section \<open>Retrieval\<close>

lemma retrieve_texts_primary:
  assumes "embed_content sv EMBEDDING_MODEL [query] = Inr (vec # vecs)"
      and "index_query sv vec top_k (build_filter doc_types file_id) = Inr ms"
      and "\<not> (allow_fallback \<and> ms = [] \<and> file_id \<noteq> None \<and> file_id \<noteq> Some [] \<and> doc_types \<noteq> [])"
  shows "retrieve_texts sv query top_k doc_types file_id allow_fallback w
           = (Inr (texts_of_matches ms),
              w\<lparr>calls := calls w @ [Embed EMBEDDING_MODEL [query],
                                    Query vec top_k (build_filter doc_types file_id)]\<rparr>)"
  using assms by (auto simp: retrieve_texts_def embed_texts_def log_call_def Let_def)

lemma retrieve_texts_fallback:
  assumes "embed_content sv EMBEDDING_MODEL [query] = Inr (vec # vecs)"
      and "index_query sv vec top_k (build_filter (d # ds) (Some A)) = Inr []"
      and "A \<noteq> []"
      and "index_query sv vec top_k (Some [(''doc_type'', Eq d)]) = Inr ms"
  shows "retrieve_texts sv query top_k (d # ds) (Some A) True w
           = (Inr (texts_of_matches ms),
              w\<lparr>calls := calls w @ [Embed EMBEDDING_MODEL [query],
                                    Query vec top_k (build_filter (d # ds) (Some A)),
                                    Query vec top_k (Some [(''doc_type'', Eq d)])]\<rparr>)"
  using assms by (simp add: retrieve_texts_def embed_texts_def log_call_def Let_def)

lemma sorted_neg_imp_descending:
  fixes f :: "'a \<Rightarrow> real"
  shows "sorted (map (\<lambda>x. - f x) xs) \<Longrightarrow> sorted (rev (map f xs))"
  by (induction xs) (auto simp: sorted_append)

text \<open>
  Claim C10.  When the final query of \<open>retrieve_texts\<close> (the primary one, or the retry
  after an empty primary result) returns matches, the function returns one string per
  match, in descending order of score with ties in the order of the index, and a match
  whose metadata has no \<open>text\<close> key contributes the empty string.
\<close>

theorem retrieve_texts_one_text_per_match:
  assumes emb: "embed_content sv EMBEDDING_MODEL [query] = Inr (vec # vecs)"
      and qry: "index_query sv vec top_k (build_filter doc_types file_id) = Inr ms
                \<or> (allow_fallback \<and> file_id = Some A \<and> A \<noteq> [] \<and> doc_types = d # ds
                    \<and> index_query sv vec top_k (build_filter doc_types file_id) = Inr []
                    \<and> index_query sv vec top_k (Some [(''doc_type'', Eq d)]) = Inr ms)"
      and ne: "ms \<noteq> []"
  shows "\<exists>sorted_ms.
           fst (retrieve_texts sv query top_k doc_types file_id allow_fallback w)
             = Inr (map (\<lambda>m. case map_of (metadata m) ''text'' of None \<Rightarrow> [] | Some t \<Rightarrow> t)
                      sorted_ms)
         \<and> mset sorted_ms = mset ms
         \<and> length sorted_ms = length ms
         \<and> sorted (rev (map score sorted_ms))
         \<and> (\<forall>s. filter (\<lambda>m. score m = s) sorted_ms = filter (\<lambda>m. score m = s) ms)"
proof -
  let ?s = "sort_key (\<lambda>m. - score m) ms"
  have "fst (retrieve_texts sv query top_k doc_types file_id allow_fallback w)
          = Inr (texts_of_matches ms)"
    using qry
  proof
    assume "index_query sv vec top_k (build_filter doc_types file_id) = Inr ms"
    from retrieve_texts_primary[OF emb this] ne show ?thesis by simp
  next
    assume fb: "allow_fallback \<and> file_id = Some A \<and> A \<noteq> [] \<and> doc_types = d # ds
                    \<and> index_query sv vec top_k (build_filter doc_types file_id) = Inr []
                    \<and> index_query sv vec top_k (Some [(''doc_type'', Eq d)]) = Inr ms"
    have "retrieve_texts sv query top_k (d # ds) (Some A) True w
           = (Inr (texts_of_matches ms),
              w\<lparr>calls := calls w @ [Embed EMBEDDING_MODEL [query],
                                    Query vec top_k (build_filter (d # ds) (Some A)),
                                    Query vec top_k (Some [(''doc_type'', Eq d)])]\<rparr>)"
      using fb by (intro retrieve_texts_fallback[OF emb]) auto
    with fb show ?thesis by simp
  qed
  then have 1: "fst (retrieve_texts sv query top_k doc_types file_id allow_fallback w)
          = Inr (map (\<lambda>m. case map_of (metadata m) ''text'' of None \<Rightarrow> [] | Some t \<Rightarrow> t) ?s)"
    using ne by (simp add: texts_of_matches_def match_text_def[abs_def])
  have "sorted (map (\<lambda>m. - score m) ?s)" by (rule sorted_sort_key)
  then have 2: "sorted (rev (map score ?s))"
    by (rule sorted_neg_imp_descending)
  have 3: "filter (\<lambda>m. score m = s) ?s = filter (\<lambda>m. score m = s) ms" for s
    using sort_key_stable[of "\<lambda>m. - score m" "- s" ms] by simp
  from 1 2 3 show ?thesis by (intro exI[of _ ?s]) simp
qed

theorem retrieve_texts_one_text_per_match_witness:
  "\<exists>sorted_ms.
     fst (retrieve_texts
            (services_with None
               [\<lparr>match_id = ''a-0'', score = 0.2, metadata = [(''text'', ''low'')]\<rparr>,
                \<lparr>match_id = ''a-1'', score = 0.9, metadata = [(''doc_type'', ''resume_chunk'')]\<rparr>])
            ''q'' 5 [] None False empty_world)
       = Inr (map (\<lambda>m. case map_of (metadata m) ''text'' of None \<Rightarrow> [] | Some t \<Rightarrow> t) sorted_ms)
     \<and> sorted_ms = [\<lparr>match_id = ''a-1'', score = 0.9, metadata = [(''doc_type'', ''resume_chunk'')]\<rparr>,
                     \<lparr>match_id = ''a-0'', score = 0.2, metadata = [(''text'', ''low'')]\<rparr>]"
proof -
  let ?ms = "[\<lparr>match_id = ''a-0'', score = 0.2, metadata = [(''text'', ''low'')]\<rparr>,
              \<lparr>match_id = ''a-1'', score = 0.9, metadata = [(''doc_type'', ''resume_chunk'')]\<rparr>]"
  have emb: "embed_content (services_with None ?ms) EMBEDDING_MODEL [''q''] = Inr ([0] # [])"
    by (simp add: services_with_def)
  have qry: "index_query (services_with None ?ms) [0] 5 (build_filter [] None) = Inr ?ms
      \<or> (False \<and> None = Some [] \<and> [] \<noteq> [] \<and> [] = ''d'' # []
            \<and> index_query (services_with None ?ms) [0] 5 (build_filter [] None) = Inr []
            \<and> index_query (services_with None ?ms) [0] 5 (Some [(''doc_type'', Eq ''d'')]) = Inr ?ms)"
    by (simp add: services_with_def filtering_index_def build_filter_def)
  have ne: "?ms \<noteq> []" by simp
  from retrieve_texts_one_text_per_match [OF emb qry ne, of empty_world]
  obtain sorted_ms where
    r: "fst (retrieve_texts (services_with None ?ms) ''q'' 5 [] None False empty_world)
          = Inr (map (\<lambda>m. case map_of (metadata m) ''text'' of None \<Rightarrow> [] | Some t \<Rightarrow> t) sorted_ms)"
    and l: "length sorted_ms = length ?ms"
    and s: "sorted (rev (map score sorted_ms))"
    and m: "mset sorted_ms = mset ?ms"
    by blast
  from l obtain x y where xy: "sorted_ms = [x, y]"
    by (cases sorted_ms; cases "tl sorted_ms"; cases "tl (tl sorted_ms)") auto
  from m xy have "{x, y} = set ?ms" by (metis mset_eq_setD list.simps(15) empty_set)
  with s xy have "sorted_ms = [?ms ! 1, ?ms ! 0]"
    by (auto simp: doubleton_eq_iff)
  with r show ?thesis by (intro exI[of _ sorted_ms]) simp
qed

lemma build_filter_file_id:
  assumes "A \<noteq> []"
  shows "\<exists>fd. build_filter doc_types (Some A) = Some fd \<and> (''file_id'', Eq A) \<in> set fd"
  using assms by (auto simp: build_filter_def Let_def split: list.splits)

lemma satisfies_file_id:
  assumes "satisfies fd m" and "(''file_id'', Eq A) \<in> set fd"
  shows "map_of (metadata m) ''file_id'' = Some A"
proof -
  from assms have "holds_cond (Eq A) (map_of (metadata m) ''file_id'')"
    by (auto simp: satisfies_def list_all_iff)
  then show ?thesis by (cases "map_of (metadata m) ''file_id''") auto
qed

lemma set_texts_of_matches: "set (texts_of_matches ms) = match_text ` set ms"
  by (simp add: texts_of_matches_def)

lemma filtering_index_honours:
  assumes "filtering_index stored vec top_k (Some f) = Inr ms"
  shows "list_all (satisfies f) ms"
  using assms by (auto simp: filtering_index_def list_all_iff dest: in_set_takeD)

text \<open>
  Claim C4.  With \<open>allow_fallback = False\<close> and a file_id \<open>A\<close> (not empty),
  \<open>retrieve_texts\<close> issues at most one query and its filter has the condition
  \<open>file_id = A\<close>.  When it returns texts, they are the \<open>text\<close> metadata, in descending
  order of score, of exactly the matches that this one query returned, and (the index
  returning only matches that satisfy the filter) every one of those matches has the
  metadata \<open>file_id = A\<close>: no text of a match with another file_id is returned.
\<close>

theorem retrieve_texts_isolated:
  assumes fid: "A \<noteq> []"
      and honours: "\<forall>vec f ms. index_query sv vec top_k (Some f) = Inr ms
                      \<longrightarrow> list_all (satisfies f) ms"
      and res: "retrieve_texts sv query top_k doc_types (Some A) False w = (r, w')"
  shows "\<exists>new. calls w' = calls w @ new
            \<and> length (filter is_query_call new) \<le> 1
            \<and> (\<forall>c\<in>set new. is_query_call c \<longrightarrow>
                  (\<exists>vec fd. c = Query vec top_k (Some fd) \<and> map_of fd ''file_id'' = Some (Eq A)))
            \<and> (\<forall>texts. r = Inr texts \<longrightarrow>
                  texts = []
                  \<or> (\<exists>vec fd ms.
                        new = [Embed EMBEDDING_MODEL [query], Query vec top_k (Some fd)]
                        \<and> index_query sv vec top_k (Some fd) = Inr ms
                        \<and> texts = map match_text (sort_key (\<lambda>m. - score m) ms)
                        \<and> (\<forall>m\<in>set ms. map_of (metadata m) ''file_id'' = Some A)))"
proof -
  from build_filter_file_id[OF fid] obtain fd where
    fd: "build_filter doc_types (Some A) = Some fd" and mem: "(''file_id'', Eq A) \<in> set fd"
    by blast
  have mfd: "map_of fd ''file_id'' = Some (Eq A)"
    using fd fid by (auto simp: build_filter_def Let_def split: list.splits)
  show ?thesis
  proof (cases "embed_content sv EMBEDDING_MODEL [query]")
    case (Inl e)
    with res have "calls w' = calls w @ [Embed EMBEDDING_MODEL [query]]" and "r = Inl e"
      by (auto simp: retrieve_texts_def embed_texts_def log_call_def Let_def)
    then show ?thesis by (intro exI[of _ "[Embed EMBEDDING_MODEL [query]]"]) simp
  next
    case (Inr vs)
    show ?thesis
    proof (cases vs)
      case Nil
      with Inr res have "calls w' = calls w @ [Embed EMBEDDING_MODEL [query]]" and "r = Inr []"
        by (auto simp: retrieve_texts_def embed_texts_def log_call_def Let_def)
      then show ?thesis by (intro exI[of _ "[Embed EMBEDDING_MODEL [query]]"]) simp
    next
      case (Cons vec vecs)
      let ?new = "[Embed EMBEDDING_MODEL [query], Query vec top_k (Some fd)]"
      show ?thesis
      proof (cases "index_query sv vec top_k (Some fd)")
        case (Inl e)
        with Inr Cons res fd have "calls w' = calls w @ ?new" and "r = Inl e"
          by (auto simp: retrieve_texts_def embed_texts_def log_call_def Let_def)
        with mfd show ?thesis by (intro exI[of _ ?new]) simp
      next
        case ms: (Inr ms)
        from honours ms have "list_all (satisfies fd) ms" by blast
        then have iso: "\<forall>m\<in>set ms. map_of (metadata m) ''file_id'' = Some A"
          by (auto simp: list_all_iff intro: satisfies_file_id[OF _ mem])
        from Inr Cons res fd ms have r: "r = Inr (texts_of_matches ms)"
          and w': "calls w' = calls w @ ?new"
          by (auto simp: retrieve_texts_def embed_texts_def log_call_def Let_def)
        have t: "texts_of_matches ms = map match_text (sort_key (\<lambda>m. - score m) ms)"
          by (simp add: texts_of_matches_def)
        have "\<forall>texts. r = Inr texts \<longrightarrow>
                texts = []
                \<or> (\<exists>vec' fd' ms'.
                      ?new = [Embed EMBEDDING_MODEL [query], Query vec' top_k (Some fd')]
                      \<and> index_query sv vec' top_k (Some fd') = Inr ms'
                      \<and> texts = map match_text (sort_key (\<lambda>m. - score m) ms')
                      \<and> (\<forall>m\<in>set ms'. map_of (metadata m) ''file_id'' = Some A))"
          using r t ms iso by blast
        with w' mfd show ?thesis by (intro exI[of _ ?new]) simp
      qed
    qed
  qed
qed

theorem retrieve_texts_isolated_witness:
  "''A'' \<noteq> []
   \<and> retrieve_texts
        (services_with None
           [\<lparr>match_id = ''A-0'', score = 0.4,
              metadata = [(''file_id'', ''A''), (''text'', ''mine''), (''doc_type'', ''resume_chunk'')]\<rparr>,
            \<lparr>match_id = ''B-0'', score = 0.9,
              metadata = [(''file_id'', ''B''), (''text'', ''theirs''), (''doc_type'', ''resume_chunk'')]\<rparr>])
        ''q'' 5 [''resume_chunk''] (Some ''A'') False empty_world
       = (Inr [''mine''],
          empty_world\<lparr>calls := [Embed EMBEDDING_MODEL [''q''],
                                 Query [0] 5 (Some [(''doc_type'', Eq ''resume_chunk''),
                                                    (''file_id'', Eq ''A'')])]\<rparr>)
   \<and> (\<exists>ms. index_query
               (services_with None
                  [\<lparr>match_id = ''A-0'', score = 0.4,
                     metadata = [(''file_id'', ''A''), (''text'', ''mine''),
                                 (''doc_type'', ''resume_chunk'')]\<rparr>,
                   \<lparr>match_id = ''B-0'', score = 0.9,
                     metadata = [(''file_id'', ''B''), (''text'', ''theirs''),
                                 (''doc_type'', ''resume_chunk'')]\<rparr>])
               [0] 5 (Some [(''doc_type'', Eq ''resume_chunk''), (''file_id'', Eq ''A'')]) = Inr ms
            \<and> [''mine''] = map match_text (sort_key (\<lambda>m. - score m) ms)
            \<and> map (\<lambda>m. map_of (metadata m) ''file_id'') ms = [Some ''A''])"
proof -
  let ?mA = "\<lparr>match_id = ''A-0'', score = 0.4,
              metadata = [(''file_id'', ''A''), (''text'', ''mine''), (''doc_type'', ''resume_chunk'')]\<rparr>"
  let ?stored = "[?mA,
            \<lparr>match_id = ''B-0'', score = 0.9,
              metadata = [(''file_id'', ''B''), (''text'', ''theirs''), (''doc_type'', ''resume_chunk'')]\<rparr>]"
  let ?sv = "services_with None ?stored"
  let ?fd = "[(''doc_type'', Eq ''resume_chunk''), (''file_id'', Eq ''A'')]"
  have fid: "''A'' \<noteq> []" by simp
  have honours: "\<forall>vec f ms. index_query ?sv vec 5 (Some f) = Inr ms
                   \<longrightarrow> list_all (satisfies f) ms"
    using filtering_index_honours [of ?stored _ 5] by (simp add: services_with_def)
  have emb: "embed_content ?sv EMBEDDING_MODEL [''q''] = Inr ([0] # [])"
    by (simp add: services_with_def)
  have bf: "build_filter [''resume_chunk''] (Some ''A'') = Some ?fd"
    by (simp add: build_filter_def)
  have qry: "index_query ?sv [0] 5 (Some ?fd) = Inr [?mA]"
    by (simp add: services_with_def filtering_index_def satisfies_def)
  have res: "retrieve_texts ?sv ''q'' 5 [''resume_chunk''] (Some ''A'') False empty_world
       = (Inr [''mine''],
          empty_world\<lparr>calls := [Embed EMBEDDING_MODEL [''q''], Query [0] 5 (Some ?fd)]\<rparr>)"
    using retrieve_texts_primary [OF emb, of 5 "[''resume_chunk'']" "Some ''A''" "[?mA]" False
                                    empty_world] qry
    by (simp add: bf texts_of_matches_def match_text_def empty_world_def)
  from retrieve_texts_isolated [OF fid honours res]
  obtain new where
    new: "calls (empty_world\<lparr>calls := [Embed EMBEDDING_MODEL [''q''], Query [0] 5 (Some ?fd)]\<rparr>)
            = calls empty_world @ new"
    and iso: "\<forall>texts. Inr [''mine''] = (Inr texts :: py_error + string list) \<longrightarrow>
                texts = []
                \<or> (\<exists>vec fd ms.
                      new = [Embed EMBEDDING_MODEL [''q''], Query vec 5 (Some fd)]
                      \<and> index_query ?sv vec 5 (Some fd) = Inr ms
                      \<and> texts = map match_text (sort_key (\<lambda>m. - score m) ms)
                      \<and> (\<forall>m\<in>set ms. map_of (metadata m) ''file_id'' = Some ''A''))"
    by (elim exE conjE) (rule that)
  from new have n: "new = [Embed EMBEDDING_MODEL [''q''], Query [0] 5 (Some ?fd)]"
    by (simp add: empty_world_def)
  from iso have "[''mine''] = ([] :: string list)
                \<or> (\<exists>vec fd ms.
                      new = [Embed EMBEDDING_MODEL [''q''], Query vec 5 (Some fd)]
                      \<and> index_query ?sv vec 5 (Some fd) = Inr ms
                      \<and> [''mine''] = map match_text (sort_key (\<lambda>m. - score m) ms)
                      \<and> (\<forall>m\<in>set ms. map_of (metadata m) ''file_id'' = Some ''A''))"
    by (elim allE[of _ "[''mine'']"]) simp
  then obtain vec fd ms where
    nv: "new = [Embed EMBEDDING_MODEL [''q''], Query vec 5 (Some fd)]"
    and q0: "index_query ?sv vec 5 (Some fd) = Inr ms"
    and t: "[''mine''] = map match_text (sort_key (\<lambda>m. - score m) ms)"
    and a: "\<forall>m\<in>set ms. map_of (metadata m) ''file_id'' = Some ''A''"
    by (elim disjE exE conjE) simp_all
  from nv n have "vec = [0]" and "fd = ?fd" by simp_all
  with q0 have q: "index_query ?sv [0] 5 (Some ?fd) = Inr ms" by simp
  from q qry have "Inr ms = (Inr [?mA] :: py_error + match list)" by (rule trans[OF sym])
  then have ms: "ms = [?mA]" by (simp only: sum.inject)
  from a have "map_of (metadata ?mA) ''file_id'' = Some ''A''"
    unfolding ms by (simp only: list.set_intros ball_simps list.set insert_iff simp_thms)
  then have fin: "map (\<lambda>m. map_of (metadata m) ''file_id'') [?mA] = [Some ''A'']"
    by (simp only: list.map)
  from t have t': "[''mine''] = map match_text (sort_key (\<lambda>m. - score m) [?mA])"
    unfolding ms .
  from qry t' fin
  have "\<exists>ms. index_query ?sv [0] 5 (Some ?fd) = Inr ms
            \<and> [''mine''] = map match_text (sort_key (\<lambda>m. - score m) ms)
            \<and> map (\<lambda>m. map_of (metadata m) ''file_id'') ms = [Some ''A'']"
    by (intro exI[of _ "[?mA]"] conjI)
  with fid res show ?thesis by (intro conjI)
qed

lemma retrieve_texts_fallback_filter:
  assumes "embed_content sv EMBEDDING_MODEL [query] = Inr (vec # vecs)"
      and "index_query sv vec top_k (build_filter (d # ds) (Some A)) = Inr []"
      and "A \<noteq> []"
      and "index_query sv vec top_k (Some [(''doc_type'', Eq d)]) = Inr ms"
  shows "filter is_query_call (drop (length (calls w))
           (calls (snd (retrieve_texts sv query top_k (d # ds) (Some A) True w))))
         = [Query vec top_k (build_filter (d # ds) (Some A)),
            Query vec top_k (Some [(''doc_type'', Eq d)])]
       \<and> fst (retrieve_texts sv query top_k (d # ds) (Some A) True w) = Inr (texts_of_matches ms)"
  using retrieve_texts_fallback [OF assms, of w] by simp

text \<open>
  Claim C5 at two doc_types.  The index holds one \<open>coach_qa\<close> entry and nothing for
  file_id \<open>A\<close>.  The retry of \<open>retrieve_texts\<close> filters on \<open>doc_type = resume_chunk\<close>, the
  first of the two doc_types, and returns nothing; the filter the primary query builds
  for the same doc_types, \<open>doc_type $in [resume_chunk, coach_qa]\<close>, finds the entry.
\<close>

theorem retrieve_texts_fallback_first_doc_type_only:
  "retrieve_texts
     (services_with None
        [\<lparr>match_id = ''coachqa-0'', score = 0.5,
           metadata = [(''text'', ''Use the STAR method.''), (''doc_type'', ''coach_qa'')]\<rparr>])
     ''q'' 5 [''resume_chunk'', ''coach_qa''] (Some ''A'') True empty_world
   = (Inr [],
      empty_world\<lparr>calls :=
        [Embed EMBEDDING_MODEL [''q''],
         Query [0] 5 (Some [(''doc_type'', In [''resume_chunk'', ''coach_qa'']),
                            (''file_id'', Eq ''A'')]),
         Query [0] 5 (Some [(''doc_type'', Eq ''resume_chunk'')])]\<rparr>)
   \<and> build_filter [''resume_chunk'', ''coach_qa''] None
       = Some [(''doc_type'', In [''resume_chunk'', ''coach_qa''])]
   \<and> filtering_index
        [\<lparr>match_id = ''coachqa-0'', score = 0.5,
           metadata = [(''text'', ''Use the STAR method.''), (''doc_type'', ''coach_qa'')]\<rparr>]
        [0] 5 (Some [(''doc_type'', In [''resume_chunk'', ''coach_qa''])])
       = Inr [\<lparr>match_id = ''coachqa-0'', score = 0.5,
                metadata = [(''text'', ''Use the STAR method.''), (''doc_type'', ''coach_qa'')]\<rparr>]"
proof -
  let ?stored = "[\<lparr>match_id = ''coachqa-0'', score = 0.5,
           metadata = [(''text'', ''Use the STAR method.''), (''doc_type'', ''coach_qa'')]\<rparr>]"
  let ?sv = "services_with None ?stored"
  have emb: "embed_content ?sv EMBEDDING_MODEL [''q''] = Inr ([0] # [])"
    by (simp add: services_with_def)
  have q1: "index_query ?sv [0] 5 (build_filter (''resume_chunk'' # [''coach_qa'']) (Some ''A'')) = Inr []"
    by (simp add: services_with_def filtering_index_def build_filter_def satisfies_def)
  have q2: "index_query ?sv [0] 5 (Some [(''doc_type'', Eq ''resume_chunk'')]) = Inr []"
    by (simp add: services_with_def filtering_index_def satisfies_def)
  have a: "''A'' \<noteq> []" by simp
  have 1: "retrieve_texts ?sv ''q'' 5 [''resume_chunk'', ''coach_qa''] (Some ''A'') True empty_world
   = (Inr [],
      empty_world\<lparr>calls :=
        [Embed EMBEDDING_MODEL [''q''],
         Query [0] 5 (Some [(''doc_type'', In [''resume_chunk'', ''coach_qa'']),
                            (''file_id'', Eq ''A'')]),
         Query [0] 5 (Some [(''doc_type'', Eq ''resume_chunk'')])]\<rparr>)"
    using retrieve_texts_fallback [OF emb q1 a q2, of empty_world]
    by (simp add: texts_of_matches_def build_filter_def empty_world_def)
  have 2: "build_filter [''resume_chunk'', ''coach_qa''] None
       = Some [(''doc_type'', In [''resume_chunk'', ''coach_qa''])]"
    by (simp add: build_filter_def)
  have 3: "filtering_index ?stored [0] 5 (Some [(''doc_type'', In [''resume_chunk'', ''coach_qa''])])
       = Inr ?stored"
    by (simp add: filtering_index_def satisfies_def)
  from 1 2 3 show ?thesis by blast
qed

section \<open>The resume analyzer\<close>

lemma build_result_object:
  "\<exists>fields. build_result (JObj kvs) = Inr (JObj fields) \<and> map fst fields = ten_fields
     \<and> (map_of kvs ''gaps'' = None \<longrightarrow> map_of fields ''gaps'' = Some (JArr []))"
  by (simp add: build_result_def bind_err_def ten_fields_def py_or_def)

lemma build_result_not_object:
  assumes "\<forall>kvs. data \<noteq> JObj kvs"
  shows "build_result data = Inl AttributeError \<or> build_result data = Inl TypeError"
  using assms by (cases data) (simp_all add: build_result_def bind_err_def)

lemma analyze_resume_not_object:
  assumes miss: "ANALYSIS_CACHE w (py_hash lib text) = None"
      and gen: "generate_content sv GENERATION_MODEL (AnalysisPrompt text) = Inr (Some t)"
      and raw: "py_strip t \<noteq> []"
      and loads: "json_loads lib (isolate_json (py_strip t)) = Some data"
      and nobj: "\<forall>kvs. data \<noteq> JObj kvs"
  shows "(fst (analyze_resume lib sv text w) = Inl AttributeError
          \<or> fst (analyze_resume lib sv text w) = Inl TypeError)
       \<and> ANALYSIS_CACHE (snd (analyze_resume lib sv text w)) = ANALYSIS_CACHE w"
  using build_result_not_object[OF nobj] miss gen raw loads
  by (auto simp: analyze_resume_def Let_def log_call_def)

lemma analyze_resume_object_or_unparsable:
  assumes miss: "ANALYSIS_CACHE w (py_hash lib text) = None"
      and gen: "generate_content sv GENERATION_MODEL (AnalysisPrompt text) = Inr resp_text"
      and ok: "case resp_text of None \<Rightarrow> True
               | Some t \<Rightarrow> py_strip t = []
                   \<or> json_loads lib (isolate_json (py_strip t)) = None
                   \<or> (\<exists>kvs. json_loads lib (isolate_json (py_strip t)) = Some (JObj kvs))"
  shows "\<exists>fields. fst (analyze_resume lib sv text w) = Inr (JObj fields)
           \<and> map fst fields = ten_fields"
proof (cases resp_text)
  case None
  with miss gen show ?thesis
    by (simp add: analyze_resume_def Let_def log_call_def py_strip_def empty_analysis_def
                  ten_fields_def)
next
  case (Some t)
  show ?thesis
  proof (cases "py_strip t = []")
    case True
    with Some miss gen show ?thesis
      by (simp add: analyze_resume_def Let_def log_call_def empty_analysis_def ten_fields_def)
  next
    case False
    with ok Some consider
        "json_loads lib (isolate_json (py_strip t)) = None"
      | kvs where "json_loads lib (isolate_json (py_strip t)) = Some (JObj kvs)"
      by auto
    then show ?thesis
    proof cases
      case 1
      from build_result_object[of "[]"] obtain fields where
        "build_result (JObj []) = Inr (JObj fields)" "map fst fields = ten_fields" by blast
      with 1 False Some miss gen show ?thesis
        by (simp add: analyze_resume_def Let_def log_call_def)
    next
      case 2
      from build_result_object[of kvs] obtain fields where
        "build_result (JObj kvs) = Inr (JObj fields)" "map fst fields = ten_fields" by blast
      with 2 False Some miss gen show ?thesis
        by (simp add: analyze_resume_def Let_def log_call_def)
    qed
  qed
qed

text \<open>
  Claim C7 at the model output \<open>[]\<close>, a JSON text that is not an object.  Nothing is
  cut (there is no brace), \<open>json.loads\<close> returns the empty list, and the first \<open>get2\<close>
  raises \<open>AttributeError\<close>: \<open>analyze_resume\<close> returns no result and caches nothing.
\<close>

theorem analyze_resume_fails_on_json_array:
  "json_loads small_lib ''[]'' = Some (JArr [])
   \<and> analyze_resume small_lib (services_with (Some ''[]'') []) ''resume text'' empty_world
       = (Inl AttributeError,
          empty_world\<lparr>calls := [Generate GENERATION_MODEL (AnalysisPrompt ''resume text'')]\<rparr>)"
  by (simp add: analyze_resume_def small_lib_def services_with_def empty_world_def Let_def
                log_call_def py_strip_def py_isspace_def isolate_json_def py_rindex_def
                build_result_def bind_err_def)

section \<open>The chat endpoint\<close>

text \<open>
  Claim C3, as stated, fails: for a file_id that was never uploaded the handler embeds
  the user message before it queries the index, which is a call to the embedding model.
\<close>

theorem chat_unknown_file_id_counterexample:
  "fst (chat (services_with None []) \<lparr>req_user_message = ''hi'', req_file_id = ''abc''\<rparr> empty_world)
     = Inr NO_RESUME_MESSAGE
   \<and> filter is_model_call
        (calls (snd (chat (services_with None [])
                      \<lparr>req_user_message = ''hi'', req_file_id = ''abc''\<rparr> empty_world)))
     = [Embed EMBEDDING_MODEL [''hi'']]"
  by (simp add: chat_def retrieve_texts_def embed_texts_def services_with_def
                filtering_index_def build_filter_def empty_world_def log_call_def Let_def
                texts_of_matches_def)

text \<open>
  Claim C3, amended.  When the embedding call returns and the index has no match for
  the filter \<open>doc_type = resume_chunk, file_id = \<close> the request's file_id, \<open>chat\<close> returns a
  fixed message (one for an empty file_id, another otherwise) and no error, and makes no
  call to the generative model.  For an empty file_id it calls no service at all;
  otherwise it makes one call to the embedding model and, if that returned a vector, one
  query.
\<close>

theorem chat_without_resume:
  assumes emb: "embed_content sv EMBEDDING_MODEL [req_user_message payload] = Inr vecs"
      and none: "\<forall>vec. index_query sv vec 5
                   (Some [(''doc_type'', Eq ''resume_chunk''), (''file_id'', Eq (req_file_id payload))])
                 = Inr []"
  shows "fst (chat sv payload w)
           = Inr (if req_file_id payload = [] then NO_FILE_MESSAGE else NO_RESUME_MESSAGE)
       \<and> calls (snd (chat sv payload w))
           = calls w
             @ (if req_file_id payload = [] then []
                else Embed EMBEDDING_MODEL [req_user_message payload]
                     # (case vecs of
                          [] \<Rightarrow> []
                        | vec # _ \<Rightarrow>
                            [Query vec 5 (Some [(''doc_type'', Eq ''resume_chunk''),
                                                (''file_id'', Eq (req_file_id payload))])]))
       \<and> filter is_generate_call (calls (snd (chat sv payload w)))
           = filter is_generate_call (calls w)"
proof (cases "req_file_id payload = []")
  case True
  then show ?thesis by (simp add: chat_def)
next
  case False
  then have bf: "build_filter [''resume_chunk''] (Some (req_file_id payload))
           = Some [(''doc_type'', Eq ''resume_chunk''), (''file_id'', Eq (req_file_id payload))]"
    by (simp add: build_filter_def)
  show ?thesis
  proof (cases vecs)
    case Nil
    with False emb show ?thesis
      by (simp add: chat_def retrieve_texts_def embed_texts_def log_call_def Let_def)
  next
    case (Cons vec rest)
    from none have q: "index_query sv vec 5 (build_filter [''resume_chunk''] (Some (req_file_id payload))) = Inr []"
      by (simp add: bf)
    from emb Cons have e: "embed_content sv EMBEDDING_MODEL [req_user_message payload] = Inr (vec # rest)"
      by simp
    from retrieve_texts_primary[OF e q, of False w] False Cons bf show ?thesis
      by (simp add: chat_def texts_of_matches_def)
  qed
qed

theorem chat_without_resume_witness:
  "embed_content (services_with None []) EMBEDDING_MODEL [''hi''] = Inr [[0]]
   \<and> fst (chat (services_with None []) \<lparr>req_user_message = ''hi'', req_file_id = ''abc''\<rparr> empty_world)
       = Inr NO_RESUME_MESSAGE
   \<and> filter is_generate_call
        (calls (snd (chat (services_with None [])
                      \<lparr>req_user_message = ''hi'', req_file_id = ''abc''\<rparr> empty_world)))
       = []"
proof -
  let ?sv = "services_with None []"
  let ?p = "\<lparr>req_user_message = ''hi'', req_file_id = ''abc''\<rparr>"
  have emb: "embed_content ?sv EMBEDDING_MODEL [req_user_message ?p] = Inr [[0]]"
    by (simp add: services_with_def)
  have none: "\<forall>vec. index_query ?sv vec 5
                   (Some [(''doc_type'', Eq ''resume_chunk''), (''file_id'', Eq (req_file_id ?p))])
                 = Inr []"
    by (simp add: services_with_def filtering_index_def)
  from chat_without_resume [OF emb none, of empty_world] emb show ?thesis
    by (simp add: empty_world_def)
qed

section \<open>The upload endpoint and the cache of analyses\<close>









lemma analyze_resume_resumes: "resumes (snd (analyze_resume lib sv text w)) = resumes w"
  by (simp add: analyze_resume_def log_call_def Let_def split: option.splits sum.splits)











end
